theory Spec2Isabelle
  imports Main "HOL-Library.Sublist"
begin

section \<open>The configuration table of create-env-vars.py\<close>

text \<open>
  The script holds one module-level dict literal, \<open>env_vars\<close>, and one procedure,
  \<open>set_env_vars\<close>. A Python dict iterates in insertion order, and the literal repeats no
  key, so \<open>env_vars.items()\<close> is the association list below, in the order of the literal.

  Two values contain backslashes. In the Python literal they stand before \<open>d\<close>, \<open>s\<close> and
  \<open>i\<close>, none of which is an escape, so each backslash is kept as a character of the value;
  it is written here by its code \<open>0x5C\<close>.
\<close>

definition env_vars :: "(string \<times> string) list" where
  "env_vars =
    [(''SIMPLE_IDENTITY_SERVER_DB_PASSWORD'', ''sample@Strong23Password''),
     (''SIMPLE_IDENTITY_SERVER_CERT_PASSWORD'', ''SharedCertPassword123!''),
     (''ASPNETCORE_ENVIRONMENT'', ''Production''),
     (''ASPNETCORE_URLS'', ''https://+:443''),
     (''Kestrel__Certificates__Default__Path'',
        ''c:'' @ CHR 0x5C # ''dev'' @ CHR 0x5C # ''ssl'' @ CHR 0x5C # ''identity-dev-test.crt''),
     (''Kestrel__Certificates__Default__KeyPath'',
        ''c:'' @ CHR 0x5C # ''dev'' @ CHR 0x5C # ''ssl'' @ CHR 0x5C # ''identity-dev-test.key''),
     (''SIMPLE_IDENTITY_SERVER_DEFAULT_CONNECTION_STRING'',
        ''Server=.,14333;Database=SimpleIdentityServer;MultipleActiveResultSets=true;uid=sa;pwd=sample@Strong23Password;TrustServerCertificate=true;Encrypt=true''),
     (''SIMPLE_IDENTITY_SERVER_SECURITY_LOGS_CONNECTION_STRING'',
        ''Server=.,14333;Database=SimpleIdentityServerSecurityLogs;MultipleActiveResultSets=true;uid=sa;pwd=sample@Strong23Password;TrustServerCertificate=true;Encrypt=true'')]"

section \<open>The host the script runs on\<close>

text \<open>
  Everything the procedure reads or changes lies outside the program: \<open>sys.platform\<close>,
  the table \<open>os.environ\<close>, the file system, the standard output and the command
  interpreter. The record \<open>world\<close> holds them. \<open>trace\<close> is the log of the effects in the
  order in which the statements of the script perform them; the other fields are the
  state those effects leave behind.

  Two conditions of the host decide whether a library call raises: \<open>may_open path\<close>
  says whether \<open>open(path, "a")\<close> succeeds, and \<open>shell_ok\<close> whether
  \<open>subprocess.run(..., shell=True)\<close> can start the command interpreter. The call to
  \<open>subprocess.run\<close> passes no \<open>check=True\<close>, so the exit status of the command itself
  is never looked at and cannot raise. Both conditions belong to the host and stay as
  they are while the procedure runs.
\<close>

datatype event =
    EnvSet string string
  | Printed string
  | Spawned string
  | OpenedAppend string
  | Wrote string string
  | Closed string

datatype fault =
    OpenError string
  | SpawnError string

record world =
  sys_platform :: string
  environ :: "string \<rightharpoonup> string"
  files :: "string \<rightharpoonup> string"
  may_open :: "string \<Rightarrow> bool"
  shell_ok :: bool
  trace :: "event list"

text \<open>
  A run ends normally in a world (\<open>Inr\<close>), or is ended by an exception that nothing
  catches (\<open>Inl\<close>), paired with the world as it is at that moment.
\<close>

type_synonym outcome = "fault \<times> world + world"

subsection \<open>The library calls\<close>

text \<open>
  \<open>os.environ[key] = value\<close>: a plain overwrite of one entry of the table. Python
  refuses an empty name and a name with \<open>=\<close> in it; the names of \<open>env_vars\<close> are neither
  (lemma \<open>env_vars_plain\<close> below), so the assignment of the script always succeeds.
  The table is read here by the names it was written with. (On Windows \<open>os.environ\<close>
  folds the case of a name, when it stores and when it looks up alike, and no two names
  of \<open>env_vars\<close> differ by case only.)
\<close>

definition os_environ_set :: "string \<Rightarrow> string \<Rightarrow> world \<Rightarrow> world" where
  "os_environ_set key val w =
     w\<lparr>environ := (environ w)(key \<mapsto> val), trace := trace w @ [EnvSet key val]\<rparr>"

text \<open>\<open>print(line)\<close>.\<close>

definition print_line :: "string \<Rightarrow> world \<Rightarrow> world" where
  "print_line line w = w\<lparr>trace := trace w @ [Printed line]\<rparr>"

text \<open>\<open>subprocess.run(cmd, shell=True)\<close>.\<close>

definition subprocess_run :: "string \<Rightarrow> world \<Rightarrow> outcome" where
  "subprocess_run cmd w =
     (if shell_ok w then Inr (w\<lparr>trace := trace w @ [Spawned cmd]\<rparr>)
      else Inl (SpawnError cmd, w))"

text \<open>The content of a file, empty for a file that does not exist.\<close>

definition content :: "world \<Rightarrow> string \<Rightarrow> string" where
  "content w path = (case files w path of None \<Rightarrow> [] | Some c \<Rightarrow> c)"

text \<open>
  \<open>open(path, "a")\<close>: mode \<open>a\<close> creates a missing file and never truncates an
  existing one.
\<close>

definition open_append :: "string \<Rightarrow> world \<Rightarrow> outcome" where
  "open_append path w =
     (if may_open w path
      then Inr (w\<lparr>files := (files w)(path \<mapsto> content w path),
                  trace := trace w @ [OpenedAppend path]\<rparr>)
      else Inl (OpenError path, w))"

text \<open>
  \<open>env_file.write(text)\<close> on a file opened in mode \<open>a\<close>: the text goes to the end
  of the file. (Python buffers the text until the file is closed; no statement of the
  script reads the file in between, so the model writes it at once.)
\<close>

definition file_write :: "string \<Rightarrow> string \<Rightarrow> world \<Rightarrow> world" where
  "file_write path txt w =
     w\<lparr>files := (files w)(path \<mapsto> content w path @ txt),
       trace := trace w @ [Wrote path txt]\<rparr>"

text \<open>Leaving the \<open>with\<close> block closes the file.\<close>

definition file_close :: "string \<Rightarrow> world \<Rightarrow> world" where
  "file_close path w = w\<lparr>trace := trace w @ [Closed path]\<rparr>"

section \<open>The procedure \<open>set_env_vars\<close>\<close>

text \<open>
  The two f-strings of the script that reach the outside world as data: the command line
  handed to the shell on Windows, and the line written to the file on Linux. (The
  progress lines stand in the loops.)
\<close>

definition setx_command :: "string \<Rightarrow> string \<Rightarrow> string" where
  "setx_command key val = ''setx '' @ key @ '' \"'' @ val @ ''\" /M''"

definition env_file_line :: "string \<Rightarrow> string \<Rightarrow> string" where
  "env_file_line key val = key @ ''=\"'' @ val @ ''\"'' @ [CHR 0x0A]"

text \<open>
  First loop: \<open>for key, value in env_vars.items(): os.environ[key] = value; print(...)\<close>.
\<close>

fun for_current_process :: "(string \<times> string) list \<Rightarrow> world \<Rightarrow> world" where
  "for_current_process [] w = w"
| "for_current_process ((key, val) # items) w =
     for_current_process items
       (print_line (''Set '' @ key @ '' for current process.'')
         (os_environ_set key val w))"

text \<open>
  The loop of the \<open>win32\<close> branch. An exception of \<open>subprocess.run\<close> leaves the loop
  and the procedure.
\<close>

fun for_windows :: "(string \<times> string) list \<Rightarrow> world \<Rightarrow> outcome" where
  "for_windows [] w = Inr w"
| "for_windows ((key, val) # items) w =
     (case subprocess_run (setx_command key val) w of
        Inl e \<Rightarrow> Inl e
      | Inr w1 \<Rightarrow>
          for_windows items (print_line (''Set '' @ key @ '' system-wide (Windows).'') w1))"

text \<open>The loop of the \<open>linux\<close> branch, inside the \<open>with\<close> block.\<close>

fun for_linux :: "string \<Rightarrow> (string \<times> string) list \<Rightarrow> world \<Rightarrow> world" where
  "for_linux env_file [] w = w"
| "for_linux env_file ((key, val) # items) w =
     for_linux env_file items
       (print_line (''Appended '' @ key @ '' to /etc/environment (Linux).'')
         (file_write env_file (env_file_line key val) w))"

definition etc_environment :: string where
  "etc_environment = ''/etc/environment''"

definition set_env_vars :: "world \<Rightarrow> outcome" where
  "set_env_vars w =
     (let w1 = for_current_process env_vars w in
      if sys_platform w1 = ''win32'' then for_windows env_vars w1
      else if prefix ''linux'' (sys_platform w1) then
        (case open_append etc_environment w1 of
           Inl e \<Rightarrow> Inl e
         | Inr w2 \<Rightarrow> Inr (file_close etc_environment (for_linux etc_environment env_vars w2)))
      else Inr w1)"

section \<open>Reading a run\<close>

text \<open>The world a run ends in, whether it ended normally or by an exception.\<close>

fun world_of :: "outcome \<Rightarrow> world" where
  "world_of (Inl (e, w)) = w"
| "world_of (Inr w) = w"

text \<open>
  The effects performed between an earlier world and a later one: what the later trace
  holds beyond the earlier.
\<close>

definition effects :: "world \<Rightarrow> world \<Rightarrow> event list" where
  "effects w w' = drop (length (trace w)) (trace w')"

text \<open>Projections of a list of effects, each in the order of the list.\<close>

fun env_sets :: "event list \<Rightarrow> (string \<times> string) list" where
  "env_sets [] = []"
| "env_sets (EnvSet k v # es) = (k, v) # env_sets es"
| "env_sets (e # es) = env_sets es"

fun spawned :: "event list \<Rightarrow> string list" where
  "spawned [] = []"
| "spawned (Spawned cmd # es) = cmd # spawned es"
| "spawned (e # es) = spawned es"

fun written :: "string \<Rightarrow> event list \<Rightarrow> string list" where
  "written path [] = []"
| "written path (Wrote p txt # es) =
     (if p = path then txt # written path es else written path es)"
| "written path (e # es) = written path es"

fun printed :: "event list \<Rightarrow> string list" where
  "printed [] = []"
| "printed (Printed line # es) = line # printed es"
| "printed (e # es) = printed es"

subsection \<open>The platform kinds of the specification\<close>

text \<open>
  The specification speaks of a run classified as Windows, Linux or Other. The
  classification is the \<open>if\<close>/\<open>elif\<close> chain of the procedure read as a function of
  \<open>sys.platform\<close>.
\<close>

datatype platform_kind = Windows | Linux | Other

definition platform_kind :: "string \<Rightarrow> platform_kind" where
  "platform_kind p =
     (if p = ''win32'' then Windows else if prefix ''linux'' p then Linux else Other)"

subsection \<open>The phases of the specification, as lists of effects\<close>

definition process_phase :: "(string \<times> string) list \<Rightarrow> event list" where
  "process_phase items =
     concat (map (\<lambda>(k, v). [EnvSet k v, Printed (''Set '' @ k @ '' for current process.'')])
       items)"

definition windows_phase :: "(string \<times> string) list \<Rightarrow> event list" where
  "windows_phase items =
     concat (map (\<lambda>(k, v).
       [Spawned (setx_command k v), Printed (''Set '' @ k @ '' system-wide (Windows).'')])
       items)"

definition linux_loop :: "string \<Rightarrow> (string \<times> string) list \<Rightarrow> event list" where
  "linux_loop path items =
     concat (map (\<lambda>(k, v).
       [Wrote path (env_file_line k v),
        Printed (''Appended '' @ k @ '' to /etc/environment (Linux).'')])
       items)"

definition linux_phase :: "string \<Rightarrow> (string \<times> string) list \<Rightarrow> event list" where
  "linux_phase path items = OpenedAppend path # linux_loop path items @ [Closed path]"

definition persistence_phase :: "platform_kind \<Rightarrow> event list" where
  "persistence_phase kind =
     (case kind of
        Windows \<Rightarrow> windows_phase env_vars
      | Linux \<Rightarrow> linux_phase etc_environment env_vars
      | Other \<Rightarrow> [])"

text \<open>
  To which phase an effect belongs. A progress line belongs to the phase whose wording
  it ends with.
\<close>

fun process_scope_event :: "event \<Rightarrow> bool" where
  "process_scope_event (EnvSet k v) = True"
| "process_scope_event (Printed line) = suffix '' for current process.'' line"
| "process_scope_event e = False"

fun windows_event :: "event \<Rightarrow> bool" where
  "windows_event (Spawned cmd) = True"
| "windows_event (Printed line) = suffix '' system-wide (Windows).'' line"
| "windows_event e = False"

fun linux_event :: "event \<Rightarrow> bool" where
  "linux_event (OpenedAppend path) = True"
| "linux_event (Wrote path txt) = True"
| "linux_event (Closed path) = True"
| "linux_event (Printed line) = suffix '' to /etc/environment (Linux).'' line"
| "linux_event e = False"

subsection \<open>The line pattern of the specification\<close>

text \<open>
  The specification's pattern \<open>NAME="VALUE"\<close> for a line of the environment file: a
  non-empty name up to the first \<open>=\<close>, then a double quote, the value, a double quote
  and the end of the line, where neither the name nor the value holds a double quote or
  a line break. A reader of the file can then tell where the value ends.
\<close>

definition name_value_line :: "string \<Rightarrow> bool" where
  "name_value_line l =
     (let name = takeWhile (\<lambda>c. c \<noteq> CHR ''='') l;
          rest = dropWhile (\<lambda>c. c \<noteq> CHR ''='') l
      in name \<noteq> [] \<and> CHR 0x22 \<notin> set name \<and> CHR 0x0A \<notin> set name \<and>
         (case rest of
            eq # q # body \<Rightarrow>
              q = CHR 0x22 \<and>
              (case rev body of
                 nl # q' # val \<Rightarrow>
                   nl = CHR 0x0A \<and> q' = CHR 0x22 \<and>
                   CHR 0x22 \<notin> set val \<and> CHR 0x0A \<notin> set val
               | _ \<Rightarrow> False)
          | _ \<Rightarrow> False))"

subsection \<open>Hosts to run the procedure on\<close>

text \<open>
  Four hosts, one for each way through the procedure. On each of them the process
  environment already holds another value for \<open>ASPNETCORE_ENVIRONMENT\<close>, and the Linux
  hosts have an environment file with one line in it.
\<close>

definition linux_host :: world where
  "linux_host =
     \<lparr>sys_platform = ''linux'',
      environ = [''ASPNETCORE_ENVIRONMENT'' \<mapsto> ''Development''],
      files = [''/etc/environment'' \<mapsto> ''LANG=C'' @ [CHR 0x0A]],
      may_open = (\<lambda>path. True),
      shell_ok = True,
      trace = [Printed ''starting'']\<rparr>"

definition locked_linux_host :: world where
  "locked_linux_host = linux_host\<lparr>may_open := (\<lambda>path. False)\<rparr>"

definition windows_host :: world where
  "windows_host = linux_host\<lparr>sys_platform := ''win32'', files := Map.empty\<rparr>"

definition darwin_host :: world where
  "darwin_host = linux_host\<lparr>sys_platform := ''darwin'', files := Map.empty\<rparr>"

section \<open>The table\<close>

lemma env_vars_names:
  "map fst env_vars =
    [''SIMPLE_IDENTITY_SERVER_DB_PASSWORD'', ''SIMPLE_IDENTITY_SERVER_CERT_PASSWORD'',
     ''ASPNETCORE_ENVIRONMENT'', ''ASPNETCORE_URLS'',
     ''Kestrel__Certificates__Default__Path'', ''Kestrel__Certificates__Default__KeyPath'',
     ''SIMPLE_IDENTITY_SERVER_DEFAULT_CONNECTION_STRING'',
     ''SIMPLE_IDENTITY_SERVER_SECURITY_LOGS_CONNECTION_STRING'']"
  by (simp add: env_vars_def)

lemma env_vars_distinct: "distinct (map fst env_vars)"
  unfolding env_vars_names by simp

lemma env_vars_length: "length env_vars = 8"
  by (simp add: env_vars_def)

lemma env_vars_first:
  "\<exists>rest. env_vars =
     (''SIMPLE_IDENTITY_SERVER_DB_PASSWORD'', ''sample@Strong23Password'') # rest"
  by (simp add: env_vars_def)

section \<open>The loops\<close>

text \<open>
  Each loop performs the effects of its phase, in the order of the items, and leaves
  alone what its statements do not touch.
\<close>

lemma env_sets_append: "env_sets (xs @ ys) = env_sets xs @ env_sets ys"
  by (induction xs rule: env_sets.induct) simp_all

lemma spawned_append: "spawned (xs @ ys) = spawned xs @ spawned ys"
  by (induction xs rule: spawned.induct) simp_all

lemma written_append: "written p (xs @ ys) = written p xs @ written p ys"
  by (induction p xs rule: written.induct) simp_all

lemma process_phase_Nil: "process_phase [] = []"
  by (simp add: process_phase_def)

lemma process_phase_Cons:
  "process_phase ((k, v) # items) =
     EnvSet k v # Printed (''Set '' @ k @ '' for current process.'') # process_phase items"
  by (simp add: process_phase_def)

lemma for_current_process_frame:
  "sys_platform (for_current_process items w) = sys_platform w"
  "files (for_current_process items w) = files w"
  "may_open (for_current_process items w) = may_open w"
  "shell_ok (for_current_process items w) = shell_ok w"
  by (induction items w rule: for_current_process.induct)
     (simp_all add: print_line_def os_environ_set_def)

lemma for_current_process_trace:
  "trace (for_current_process items w) = trace w @ process_phase items"
  by (induction items w rule: for_current_process.induct)
     (simp_all add: print_line_def os_environ_set_def process_phase_Nil process_phase_Cons)

lemma for_current_process_environ:
  "environ (for_current_process items w) = environ w ++ map_of (rev items)"
proof (induction items w rule: for_current_process.induct)
  case (1 w)
  show ?case by simp
next
  case (2 key val items w)
  have "environ w ++ map_of (rev ((key, val) # items)) =
        (environ w ++ [key \<mapsto> val]) ++ map_of (rev items)"
    by simp
  also have "environ w ++ [key \<mapsto> val] = (environ w)(key \<mapsto> val)"
    by simp
  finally show ?case
    using 2 by (simp add: print_line_def os_environ_set_def)
qed

lemma windows_phase_Nil: "windows_phase [] = []"
  by (simp add: windows_phase_def)

lemma windows_phase_Cons:
  "windows_phase ((k, v) # items) =
     Spawned (setx_command k v) # Printed (''Set '' @ k @ '' system-wide (Windows).'')
       # windows_phase items"
  by (simp add: windows_phase_def)

lemma for_windows_ok:
  "shell_ok w \<Longrightarrow> for_windows items w = Inr (w\<lparr>trace := trace w @ windows_phase items\<rparr>)"
  by (induction items w rule: for_windows.induct)
     (simp_all add: subprocess_run_def print_line_def windows_phase_Nil windows_phase_Cons)

lemma for_windows_fault_first:
  "\<not> shell_ok w \<Longrightarrow>
     for_windows ((k, v) # rest) w = Inl (SpawnError (setx_command k v), w)"
  by (simp add: subprocess_run_def)

lemma linux_loop_Nil: "linux_loop p [] = []"
  by (simp add: linux_loop_def)

lemma linux_loop_Cons:
  "linux_loop p ((k, v) # items) =
     Wrote p (env_file_line k v)
       # Printed (''Appended '' @ k @ '' to /etc/environment (Linux).'') # linux_loop p items"
  by (simp add: linux_loop_def)

lemma for_linux_frame:
  "sys_platform (for_linux p items w) = sys_platform w"
  "environ (for_linux p items w) = environ w"
  "may_open (for_linux p items w) = may_open w"
  "shell_ok (for_linux p items w) = shell_ok w"
  by (induction p items w rule: for_linux.induct)
     (simp_all add: print_line_def file_write_def)

lemma for_linux_trace:
  "trace (for_linux p items w) = trace w @ linux_loop p items"
  by (induction p items w rule: for_linux.induct)
     (simp_all add: print_line_def file_write_def linux_loop_Nil linux_loop_Cons)

lemma for_linux_content:
  "content (for_linux p items w) p =
     content w p @ concat (map (\<lambda>(k, v). env_file_line k v) items)"
  by (induction p items w rule: for_linux.induct)
     (simp_all add: print_line_def file_write_def content_def)

lemma for_linux_other_files:
  "q \<noteq> p \<Longrightarrow> files (for_linux p items w) q = files w q"
  by (induction p items w rule: for_linux.induct)
     (simp_all add: print_line_def file_write_def)

lemma for_linux_exists:
  "files w p \<noteq> None \<Longrightarrow> files (for_linux p items w) p \<noteq> None"
  by (induction p items w rule: for_linux.induct)
     (simp_all add: print_line_def file_write_def)

section \<open>The outcomes of a run\<close>

lemma platform_kind_Windows: "platform_kind p = Windows \<longleftrightarrow> p = ''win32''"
  by (simp add: platform_kind_def)

lemma platform_kind_Linux: "platform_kind p = Linux \<longleftrightarrow> prefix ''linux'' p"
  by (auto simp: platform_kind_def)

lemma platform_kind_Other:
  "platform_kind p = Other \<longleftrightarrow> p \<noteq> ''win32'' \<and> \<not> prefix ''linux'' p"
  by (simp add: platform_kind_def)

lemma set_env_vars_Windows:
  "platform_kind (sys_platform w) = Windows \<Longrightarrow>
     set_env_vars w = for_windows env_vars (for_current_process env_vars w)"
  by (simp add: set_env_vars_def Let_def platform_kind_Windows for_current_process_frame)

lemma set_env_vars_Linux:
  "platform_kind (sys_platform w) = Linux \<Longrightarrow>
     set_env_vars w =
       (case open_append etc_environment (for_current_process env_vars w) of
          Inl e \<Rightarrow> Inl e
        | Inr w2 \<Rightarrow>
            Inr (file_close etc_environment (for_linux etc_environment env_vars w2)))"
  by (auto simp: set_env_vars_def Let_def platform_kind_Linux for_current_process_frame)

lemma set_env_vars_Other:
  "platform_kind (sys_platform w) = Other \<Longrightarrow>
     set_env_vars w = Inr (for_current_process env_vars w)"
  by (simp add: set_env_vars_def Let_def platform_kind_Other for_current_process_frame)

text \<open>
  The five ways through the procedure: the Windows branch with and without a shell, the
  Linux branch with and without a file that opens, and neither branch.
\<close>

lemma set_env_vars_Windows_ok:
  assumes "platform_kind (sys_platform w) = Windows" and "shell_ok w"
  shows "set_env_vars w =
           Inr ((for_current_process env_vars w)
                 \<lparr>trace := trace w @ process_phase env_vars @ windows_phase env_vars\<rparr>)"
  using assms
  by (simp add: set_env_vars_Windows for_windows_ok for_current_process_frame
      for_current_process_trace)

lemma set_env_vars_Windows_fault:
  assumes "platform_kind (sys_platform w) = Windows" and "\<not> shell_ok w"
  shows "set_env_vars w =
           Inl (SpawnError
                  (setx_command ''SIMPLE_IDENTITY_SERVER_DB_PASSWORD'' ''sample@Strong23Password''),
                for_current_process env_vars w)"
proof -
  obtain rest where items:
    "env_vars = (''SIMPLE_IDENTITY_SERVER_DB_PASSWORD'', ''sample@Strong23Password'') # rest"
    using env_vars_first by blast
  have "\<not> shell_ok (for_current_process env_vars w)"
    using assms(2) by (simp add: for_current_process_frame)
  then have "for_windows env_vars (for_current_process env_vars w) =
      Inl (SpawnError
             (setx_command ''SIMPLE_IDENTITY_SERVER_DB_PASSWORD'' ''sample@Strong23Password''),
           for_current_process env_vars w)"
    by (subst (1) items) (rule for_windows_fault_first)
  then show ?thesis
    using assms(1) by (simp add: set_env_vars_Windows)
qed

lemma set_env_vars_Linux_ok:
  assumes "platform_kind (sys_platform w) = Linux" and "may_open w etc_environment"
  shows "\<exists>w2. open_append etc_environment (for_current_process env_vars w) = Inr w2 \<and>
           set_env_vars w =
             Inr (file_close etc_environment (for_linux etc_environment env_vars w2))"
  using assms
  by (simp add: set_env_vars_Linux open_append_def for_current_process_frame)

lemma set_env_vars_Linux_fault:
  assumes "platform_kind (sys_platform w) = Linux" and "\<not> may_open w etc_environment"
  shows "set_env_vars w = Inl (OpenError etc_environment, for_current_process env_vars w)"
  using assms
  by (simp add: set_env_vars_Linux open_append_def for_current_process_frame)

lemma set_env_vars_fault_world:
  assumes "set_env_vars w = Inl (e, w')"
  shows "w' = for_current_process env_vars w"
proof (cases "platform_kind (sys_platform w)")
  case Windows
  show ?thesis
  proof (cases "shell_ok w")
    case True
    from set_env_vars_Windows_ok [OF Windows True] assms show ?thesis by simp
  next
    case False
    from set_env_vars_Windows_fault [OF Windows False] assms show ?thesis by auto
  qed
next
  case Linux
  show ?thesis
  proof (cases "may_open w etc_environment")
    case True
    from set_env_vars_Linux_ok [OF Linux True] assms show ?thesis by auto
  next
    case False
    from set_env_vars_Linux_fault [OF Linux False] assms show ?thesis by simp
  qed
next
  case Other
  from set_env_vars_Other [OF Other] assms show ?thesis by simp
qed

lemma open_append_frame:
  assumes "open_append p w = Inr w2"
  shows "environ w2 = environ w" and "sys_platform w2 = sys_platform w"
    and "may_open w2 = may_open w" and "shell_ok w2 = shell_ok w"
    and "trace w2 = trace w @ [OpenedAppend p]"
    and "content w2 p = content w p" and "files w2 p \<noteq> None"
    and "\<And>q. q \<noteq> p \<Longrightarrow> files w2 q = files w q"
  using assms by (auto simp: open_append_def content_def split: if_splits)

lemma file_close_frame:
  "environ (file_close p w) = environ w"
  "sys_platform (file_close p w) = sys_platform w"
  "may_open (file_close p w) = may_open w"
  "shell_ok (file_close p w) = shell_ok w"
  "files (file_close p w) = files w"
  "trace (file_close p w) = trace w @ [Closed p]"
  "content (file_close p w) q = content w q"
  by (simp_all add: file_close_def content_def)

lemma set_env_vars_ok_environ:
  assumes "set_env_vars w = Inr w'"
  shows "environ w' = environ (for_current_process env_vars w)"
proof (cases "platform_kind (sys_platform w)")
  case Windows
  show ?thesis
  proof (cases "shell_ok w")
    case True
    from set_env_vars_Windows_ok [OF Windows True] assms show ?thesis by auto
  next
    case False
    from set_env_vars_Windows_fault [OF Windows False] assms show ?thesis by auto
  qed
next
  case Linux
  show ?thesis
  proof (cases "may_open w etc_environment")
    case True
    from set_env_vars_Linux_ok [OF Linux True] assms show ?thesis
      by (auto simp: file_close_frame for_linux_frame open_append_frame)
  next
    case False
    from set_env_vars_Linux_fault [OF Linux False] assms show ?thesis by simp
  qed
next
  case Other
  from set_env_vars_Other [OF Other] assms show ?thesis by auto
qed

lemma map_of_rev_env_vars:
  assumes "(name, val) \<in> set env_vars"
  shows "map_of (rev env_vars) name = Some val"
proof -
  have "distinct (map fst (rev env_vars))"
    using env_vars_distinct by (simp add: rev_map [symmetric])
  moreover have "(name, val) \<in> set (rev env_vars)"
    using assms by simp
  ultimately show ?thesis
    by (rule map_of_is_SomeI)
qed

section \<open>The process environment after a run\<close>

text \<open>
  Claim C1: after a run that ends normally, on any platform, the process environment
  maps the name of every entry of the table to the value of that entry, whatever it
  held for that name before the run.
\<close>

theorem environ_after_successful_run:
  assumes "set_env_vars w = Inr w'" and "(name, val) \<in> set env_vars"
  shows "environ w' name = Some val"
proof -
  have "environ w' = environ w ++ map_of (rev env_vars)"
    using assms(1) by (simp add: set_env_vars_ok_environ for_current_process_environ)
  then show ?thesis
    using map_of_rev_env_vars [OF assms(2)] by (simp add: map_add_Some_iff)
qed

lemma darwin_host_kind: "platform_kind (sys_platform darwin_host) = Other"
  by (simp add: darwin_host_def linux_host_def platform_kind_def)

theorem environ_after_successful_run_witness:
  "environ darwin_host ''ASPNETCORE_ENVIRONMENT'' = Some ''Development'' \<and>
   (''ASPNETCORE_ENVIRONMENT'', ''Production'') \<in> set env_vars \<and>
   (\<exists>w'. set_env_vars darwin_host = Inr w' \<and>
      environ w' ''ASPNETCORE_ENVIRONMENT'' = Some ''Production'')"
proof -
  have old: "environ darwin_host ''ASPNETCORE_ENVIRONMENT'' = Some ''Development''"
    by (simp add: darwin_host_def linux_host_def)
  have entry: "(''ASPNETCORE_ENVIRONMENT'', ''Production'') \<in> set env_vars"
    by (simp add: env_vars_def)
  have run: "set_env_vars darwin_host = Inr (for_current_process env_vars darwin_host)"
    using darwin_host_kind by (rule set_env_vars_Other)
  from environ_after_successful_run [OF run entry] old entry run show ?thesis
    by blast
qed

section \<open>The effects of a run\<close>

lemma effects_append: "trace w' = trace w @ es \<Longrightarrow> effects w w' = es"
  by (simp add: effects_def)

lemma set_env_vars_ok_trace:
  assumes "set_env_vars w = Inr w'"
  shows "trace w' =
           trace w @ process_phase env_vars @ persistence_phase (platform_kind (sys_platform w))"
proof (cases "platform_kind (sys_platform w)")
  case Windows
  show ?thesis
  proof (cases "shell_ok w")
    case True
    from set_env_vars_Windows_ok [OF Windows True] assms show ?thesis
      by (auto simp: persistence_phase_def Windows)
  next
    case False
    from set_env_vars_Windows_fault [OF Windows False] assms show ?thesis by auto
  qed
next
  case Linux
  show ?thesis
  proof (cases "may_open w etc_environment")
    case True
    from set_env_vars_Linux_ok [OF Linux True] assms show ?thesis
      by (auto simp: persistence_phase_def Linux linux_phase_def file_close_frame
          for_linux_trace open_append_frame for_current_process_trace)
  next
    case False
    from set_env_vars_Linux_fault [OF Linux False] assms show ?thesis by simp
  qed
next
  case Other
  from set_env_vars_Other [OF Other] assms show ?thesis
    by (auto simp: persistence_phase_def Other for_current_process_trace)
qed

lemma set_env_vars_effects:
  "effects w (world_of (set_env_vars w)) =
     process_phase env_vars @
     (if isl (set_env_vars w) then []
      else persistence_phase (platform_kind (sys_platform w)))"
proof (cases "set_env_vars w")
  case (Inl a)
  obtain e w' where a: "a = (e, w')" by (cases a)
  have "w' = for_current_process env_vars w"
    using Inl a by (simp add: set_env_vars_fault_world)
  then show ?thesis
    using Inl a by (simp add: effects_append for_current_process_trace)
next
  case (Inr w')
  then show ?thesis
    by (simp add: effects_append set_env_vars_ok_trace)
qed

lemma env_sets_process_phase: "env_sets (process_phase items) = items"
  by (induction items) (auto simp: process_phase_Nil process_phase_Cons)

lemma env_sets_windows_phase: "env_sets (windows_phase items) = []"
  by (induction items) (auto simp: windows_phase_Nil windows_phase_Cons)

lemma env_sets_linux_loop: "env_sets (linux_loop p items) = []"
  by (induction items) (auto simp: linux_loop_Nil linux_loop_Cons)

lemma env_sets_persistence_phase: "env_sets (persistence_phase kind) = []"
  by (cases kind)
     (simp_all add: persistence_phase_def env_sets_windows_phase linux_phase_def
       env_sets_append env_sets_linux_loop)

lemma env_sets_run: "env_sets (effects w (world_of (set_env_vars w))) = env_vars"
  by (simp add: set_env_vars_effects env_sets_append env_sets_process_phase
      env_sets_persistence_phase)

text \<open>
  Claim C2, as the specification states it: a run sets exactly seven named variables in
  the process environment, the table holding exactly seven distinct names. The table of
  the script holds eight (the specification's own list counts two connection strings
  among its seven), so the count fails: on the host \<open>darwin_host\<close> a run sets eight
  distinct names.
\<close>

theorem seven_variables_counterexample:
  "card (fst ` set (env_sets (effects darwin_host (world_of (set_env_vars darwin_host))))) \<noteq> 7
   \<and> card (fst ` set env_vars) \<noteq> 7"
proof -
  have "card (fst ` set env_vars) = length (map fst env_vars)"
    using distinct_card [OF env_vars_distinct] by simp
  then have "card (fst ` set env_vars) = 8"
    by (simp add: env_vars_length)
  then show ?thesis
    by (simp add: env_sets_run)
qed

text \<open>
  Claim C2, amended: every run, on every host, sets the names of the table in the process
  environment, one assignment for each entry and in the order of the table, and the
  table holds exactly eight entries with eight distinct names.
\<close>

theorem run_sets_eight_variables:
  "env_sets (effects w (world_of (set_env_vars w))) = env_vars \<and>
   distinct (map fst env_vars) \<and> length env_vars = 8 \<and> card (fst ` set env_vars) = 8"
proof -
  have "card (fst ` set env_vars) = length (map fst env_vars)"
    using distinct_card [OF env_vars_distinct] by simp
  then show ?thesis
    by (simp add: env_sets_run env_vars_distinct env_vars_length)
qed

theorem run_sets_eight_variables_witness:
  "length (env_sets (effects darwin_host (world_of (set_env_vars darwin_host)))) = 8 \<and>
   card (fst ` set env_vars) = 8"
  using run_sets_eight_variables [of darwin_host] by simp

section \<open>The files after a run\<close>

lemma written_linux_loop:
  "written p (linux_loop p items) = map (\<lambda>(k, v). env_file_line k v) items"
  by (induction items) (auto simp: linux_loop_Nil linux_loop_Cons)

lemma written_process_phase: "written p (process_phase items) = []"
  by (induction items) (auto simp: process_phase_Nil process_phase_Cons)

lemma written_linux_phase:
  "written p (linux_phase p items) = map (\<lambda>(k, v). env_file_line k v) items"
  by (simp add: linux_phase_def written_append written_linux_loop)

lemma for_current_process_content:
  "content (for_current_process items w) p = content w p"
  by (simp add: content_def for_current_process_frame)

lemma set_env_vars_Linux_files:
  assumes "platform_kind (sys_platform w) = Linux" and "set_env_vars w = Inr w'"
  shows "files w' =
           (files w)(etc_environment \<mapsto>
              content w etc_environment @
              concat (map (\<lambda>(k, v). env_file_line k v) env_vars))"
proof -
  have opened: "may_open w etc_environment"
    using set_env_vars_Linux_fault [OF assms(1)] assms(2) by auto
  from set_env_vars_Linux_ok [OF assms(1) opened] assms(2)
  obtain w2 where
    w2: "open_append etc_environment (for_current_process env_vars w) = Inr w2" and
    w': "w' = file_close etc_environment (for_linux etc_environment env_vars w2)"
    by auto
  show ?thesis
  proof
    fix q
    show "files w' q =
            ((files w)(etc_environment \<mapsto>
               content w etc_environment @
               concat (map (\<lambda>(k, v). env_file_line k v) env_vars))) q"
    proof (cases "q = etc_environment")
      case True
      have "files (for_linux etc_environment env_vars w2) etc_environment \<noteq> None"
        using open_append_frame(7) [OF w2] by (rule for_linux_exists)
      then have "files w' etc_environment = Some (content w' etc_environment)"
        by (auto simp: w' file_close_frame content_def)
      moreover have "content w' etc_environment =
          content w etc_environment @ concat (map (\<lambda>(k, v). env_file_line k v) env_vars)"
        using open_append_frame(6) [OF w2]
        by (simp add: w' file_close_frame for_linux_content for_current_process_content)
      ultimately show ?thesis
        using True by simp
    next
      case False
      then show ?thesis
        using open_append_frame(8) [OF w2]
        by (simp add: w' file_close_frame for_linux_other_files for_current_process_frame)
    qed
  qed
qed


subsection \<open>Lines that match the pattern\<close>

lemma name_value_line_plain:
  assumes "key \<noteq> []" and "CHR ''='' \<notin> set key"
    and "CHR 0x22 \<notin> set key" and "CHR 0x0A \<notin> set key"
    and "CHR 0x22 \<notin> set val" and "CHR 0x0A \<notin> set val"
  shows "name_value_line (env_file_line key val)"
proof -
  have line: "env_file_line key val = key @ CHR ''='' # CHR 0x22 # val @ [CHR 0x22, CHR 0x0A]"
    by (simp add: env_file_line_def)
  have tw: "takeWhile (\<lambda>c. c \<noteq> CHR ''='') (env_file_line key val) = key"
    unfolding line using assms(2) by (subst takeWhile_append2) auto
  have dw: "dropWhile (\<lambda>c. c \<noteq> CHR ''='') (env_file_line key val) =
              CHR ''='' # CHR 0x22 # val @ [CHR 0x22, CHR 0x0A]"
    unfolding line using assms(2) by (subst dropWhile_append2) auto
  show ?thesis
    unfolding name_value_line_def tw dw using assms by simp
qed

lemma env_vars_plain:
  "list_all (\<lambda>(k, v). k \<noteq> [] \<and> CHR ''='' \<notin> set k \<and> CHR 0x22 \<notin> set k \<and>
      CHR 0x0A \<notin> set k \<and> CHR 0x22 \<notin> set v \<and> CHR 0x0A \<notin> set v) env_vars"
  by code_simp

lemma env_vars_lines_match:
  "list_all name_value_line (map (\<lambda>(k, v). env_file_line k v) env_vars)"
proof -
  have "name_value_line (env_file_line k v)" if "(k, v) \<in> set env_vars" for k v
    using env_vars_plain that
    by (intro name_value_line_plain) (auto simp: list_all_iff)
  then show ?thesis
    by (auto simp: list_all_iff)
qed

lemma env_vars_line_breaks:
  "length (filter (\<lambda>c. c = CHR 0x0A)
     (concat (map (\<lambda>(k, v). env_file_line k v) env_vars))) = length env_vars"
  by code_simp


lemma linux_host_kind: "platform_kind (sys_platform linux_host) = Linux"
  by (simp add: linux_host_def platform_kind_def)

lemma linux_host_run: "\<exists>w'. set_env_vars linux_host = Inr w'"
proof -
  have "may_open linux_host etc_environment"
    by (simp add: linux_host_def)
  from set_env_vars_Linux_ok [OF linux_host_kind this] show ?thesis
    by blast
qed

lemma linux_host_content: "content linux_host etc_environment = ''LANG=C'' @ [CHR 0x0A]"
  by (simp add: linux_host_def content_def etc_environment_def)

text \<open>
  Claim C3: on a run classified as Linux that ends normally, \<open>/etc/environment\<close> is
  opened in append mode; afterwards the file holds what it held before, unchanged,
  followed by one line for each entry of the table, in the order of the table, each line
  being the name, \<open>="\<close>, the value, \<open>"\<close> and a line break. The run writes once for each
  entry, the text added holds as many line breaks as the table has entries, every line
  matches the pattern \<open>NAME="VALUE"\<close>, and no other file is touched.
\<close>

theorem linux_run_appends_lines:
  assumes "platform_kind (sys_platform w) = Linux" and "set_env_vars w = Inr w'"
  shows "OpenedAppend etc_environment \<in> set (effects w w') \<and>
         files w' etc_environment =
           Some (content w etc_environment @
                 concat (map (\<lambda>(k, v). k @ ''=\"'' @ v @ ''\"'' @ [CHR 0x0A]) env_vars)) \<and>
         written etc_environment (effects w w') =
           map (\<lambda>(k, v). k @ ''=\"'' @ v @ ''\"'' @ [CHR 0x0A]) env_vars \<and>
         length (filter (\<lambda>c. c = CHR 0x0A)
           (concat (map (\<lambda>(k, v). k @ ''=\"'' @ v @ ''\"'' @ [CHR 0x0A]) env_vars))) =
           length env_vars \<and>
         list_all name_value_line (written etc_environment (effects w w')) \<and>
         (\<forall>q. q \<noteq> etc_environment \<longrightarrow> files w' q = files w q)"
proof -
  have line: "(\<lambda>(k, v). k @ ''=\"'' @ v @ ''\"'' @ [CHR 0x0A]) = (\<lambda>(k, v). env_file_line k v)"
    by (simp add: env_file_line_def fun_eq_iff)
  have eff: "effects w w' = process_phase env_vars @ linux_phase etc_environment env_vars"
    using set_env_vars_ok_trace [OF assms(2)] assms(1)
    by (simp add: effects_append persistence_phase_def)
  have "OpenedAppend etc_environment \<in> set (effects w w')"
    by (simp add: eff linux_phase_def)
  moreover have "files w' etc_environment =
      Some (content w etc_environment @ concat (map (\<lambda>(k, v). env_file_line k v) env_vars))"
    by (simp add: set_env_vars_Linux_files [OF assms])
  moreover have wr: "written etc_environment (effects w w') =
      map (\<lambda>(k, v). env_file_line k v) env_vars"
    by (simp add: eff written_append written_process_phase written_linux_phase)
  moreover have "list_all name_value_line (written etc_environment (effects w w'))"
    unfolding wr by (rule env_vars_lines_match)
  moreover have "\<forall>q. q \<noteq> etc_environment \<longrightarrow> files w' q = files w q"
    by (simp add: set_env_vars_Linux_files [OF assms])
  ultimately show ?thesis
    unfolding line using env_vars_line_breaks by blast
qed

theorem linux_run_appends_lines_witness:
  "platform_kind (sys_platform linux_host) = Linux \<and>
   (\<exists>w'. set_env_vars linux_host = Inr w' \<and>
      files w' etc_environment =
        Some (''LANG=C'' @ [CHR 0x0A] @
              concat (map (\<lambda>(k, v). k @ ''=\"'' @ v @ ''\"'' @ [CHR 0x0A]) env_vars)) \<and>
      length (written etc_environment (effects linux_host w')) = 8)"
proof -
  obtain w' where run: "set_env_vars linux_host = Inr w'"
    using linux_host_run by blast
  from linux_run_appends_lines [OF linux_host_kind run] show ?thesis
    using linux_host_kind run
    by (auto simp: linux_host_content env_vars_length)
qed

section \<open>The commands of a Windows run\<close>

lemma spawned_process_phase: "spawned (process_phase items) = []"
  by (induction items) (auto simp: process_phase_Nil process_phase_Cons)

lemma spawned_windows_phase:
  "spawned (windows_phase items) = map (\<lambda>(k, v). setx_command k v) items"
  by (induction items) (auto simp: windows_phase_Nil windows_phase_Cons)

lemma count_list_distinct:
  "distinct xs \<Longrightarrow> x \<in> set xs \<Longrightarrow> count_list xs x = 1"
  by (induction xs) auto

lemma setx_commands_distinct: "distinct (map (\<lambda>(k, v). setx_command k v) env_vars)"
  by code_simp

lemma setx_command_shape:
  "prefix (''setx '' @ key @ '' '') (setx_command key val) \<and>
   suffix '' /M'' (setx_command key val)"
proof -
  have "setx_command key val = (''setx '' @ key @ '' '') @ (CHR 0x22 # val @ [CHR 0x22] @ '' /M'')"
    by (simp add: setx_command_def)
  moreover have "setx_command key val = (''setx '' @ key @ '' '' @ CHR 0x22 # val @ [CHR 0x22]) @ '' /M''"
    by (simp add: setx_command_def)
  ultimately show ?thesis
    by (metis prefixI suffixI)
qed

lemma set_env_vars_Windows_files:
  assumes "platform_kind (sys_platform w) = Windows" and "set_env_vars w = Inr w'"
  shows "files w' = files w"
proof (cases "shell_ok w")
  case True
  from set_env_vars_Windows_ok [OF assms(1) True] assms(2) show ?thesis
    by (auto simp: for_current_process_frame)
next
  case False
  from set_env_vars_Windows_fault [OF assms(1) False] assms(2) show ?thesis by auto
qed

lemma windows_host_kind: "platform_kind (sys_platform windows_host) = Windows"
  by (simp add: windows_host_def linux_host_def platform_kind_def)

lemma windows_host_run: "\<exists>w'. set_env_vars windows_host = Inr w'"
proof -
  have "shell_ok windows_host"
    by (simp add: windows_host_def linux_host_def)
  from set_env_vars_Windows_ok [OF windows_host_kind this] show ?thesis
    by blast
qed

text \<open>
  Claim C4: on a run classified as Windows that ends normally, the commands handed to
  the shell are, in the order of the table, one \<open>setx\<close> command for each entry: \<open>setx\<close>,
  the name, the value between double quotes, and the flag \<open>/M\<close> that asks for machine
  scope. No command is run twice, so each entry's command is run exactly once, and each
  command starts with \<open>setx\<close> and the entry's name and ends with \<open>/M\<close>.
\<close>

theorem windows_run_invokes_setx:
  assumes "platform_kind (sys_platform w) = Windows" and "set_env_vars w = Inr w'"
  shows "spawned (effects w w') =
           map (\<lambda>(k, v). ''setx '' @ k @ '' \"'' @ v @ ''\" /M'') env_vars \<and>
         length (spawned (effects w w')) = length env_vars \<and>
         list_all (\<lambda>(k, v). count_list (spawned (effects w w')) (setx_command k v) = 1 \<and>
            prefix (''setx '' @ k @ '' '') (setx_command k v) \<and>
            suffix '' /M'' (setx_command k v)) env_vars \<and>
         list_all (suffix '' /M'') (spawned (effects w w'))"
proof -
  have cmd: "(\<lambda>(k, v). ''setx '' @ k @ '' \"'' @ v @ ''\" /M'') = (\<lambda>(k, v). setx_command k v)"
    by (simp add: setx_command_def fun_eq_iff)
  have eff: "effects w w' = process_phase env_vars @ windows_phase env_vars"
    using set_env_vars_ok_trace [OF assms(2)] assms(1)
    by (simp add: effects_append persistence_phase_def)
  have sp: "spawned (effects w w') = map (\<lambda>(k, v). setx_command k v) env_vars"
    by (simp add: eff spawned_append spawned_process_phase spawned_windows_phase)
  have once: "count_list (spawned (effects w w')) (setx_command k v) = 1"
    if "(k, v) \<in> set env_vars" for k v
  proof -
    have "setx_command k v \<in> set (map (\<lambda>(k, v). setx_command k v) env_vars)"
      using that by force
    with setx_commands_distinct show ?thesis
      unfolding sp by (rule count_list_distinct)
  qed
  have "list_all (\<lambda>(k, v). count_list (spawned (effects w w')) (setx_command k v) = 1 \<and>
            prefix (''setx '' @ k @ '' '') (setx_command k v) \<and>
            suffix '' /M'' (setx_command k v)) env_vars"
    using once setx_command_shape by (auto simp: list_all_iff)
  moreover have "list_all (suffix '' /M'') (spawned (effects w w'))"
    unfolding sp using setx_command_shape by (auto simp: list_all_iff)
  ultimately show ?thesis
    unfolding cmd using sp by simp
qed

theorem windows_run_invokes_setx_witness:
  "platform_kind (sys_platform windows_host) = Windows \<and>
   (\<exists>w'. set_env_vars windows_host = Inr w' \<and>
      length (spawned (effects windows_host w')) = 8 \<and>
      spawned (effects windows_host w') ! 2 =
        ''setx ASPNETCORE_ENVIRONMENT \"Production\" /M'')"
proof -
  obtain w' where run: "set_env_vars windows_host = Inr w'"
    using windows_host_run by blast
  have "map (\<lambda>(k, v). ''setx '' @ k @ '' \"'' @ v @ ''\" /M'') env_vars ! 2 =
          ''setx ASPNETCORE_ENVIRONMENT \"Production\" /M''"
    by (simp add: env_vars_def)
  with windows_run_invokes_setx [OF windows_host_kind run] show ?thesis
    using windows_host_kind run by (auto simp: env_vars_length)
qed

section \<open>Two runs in succession\<close>

lemma set_env_vars_ok_frame:
  assumes "set_env_vars w = Inr w'"
  shows "sys_platform w' = sys_platform w \<and> may_open w' = may_open w \<and>
         shell_ok w' = shell_ok w"
proof (cases "platform_kind (sys_platform w)")
  case Windows
  show ?thesis
  proof (cases "shell_ok w")
    case True
    from set_env_vars_Windows_ok [OF Windows True] assms show ?thesis
      by (auto simp: for_current_process_frame)
  next
    case False
    from set_env_vars_Windows_fault [OF Windows False] assms show ?thesis by auto
  qed
next
  case Linux
  show ?thesis
  proof (cases "may_open w etc_environment")
    case True
    from set_env_vars_Linux_ok [OF Linux True] assms show ?thesis
      by (auto simp: file_close_frame for_linux_frame open_append_frame
          for_current_process_frame)
  next
    case False
    from set_env_vars_Linux_fault [OF Linux False] assms show ?thesis by simp
  qed
next
  case Other
  from set_env_vars_Other [OF Other] assms show ?thesis
    by (auto simp: for_current_process_frame)
qed

lemma map_add_twice: "(m ++ n) ++ n = m ++ n"
  by (rule ext) (simp add: map_add_def split: option.splits)

lemma env_file_lines_distinct: "distinct (map (\<lambda>(k, v). env_file_line k v) env_vars)"
  by code_simp

lemma count_list_twice:
  "distinct xs \<Longrightarrow> x \<in> set xs \<Longrightarrow> count_list (xs @ xs) x = 2"
  by (simp add: count_list_distinct)

text \<open>
  Claim C5: of two runs in succession, both ending normally, the second leaves the
  process environment as the first left it. On a host classified as Linux the
  environment file then holds its earlier content followed by the lines of the table
  twice over, and the line of each entry has been written exactly twice.
\<close>

theorem second_run_repeats_lines_only:
  assumes "set_env_vars w = Inr w1" and "set_env_vars w1 = Inr w2"
  shows "environ w2 = environ w1 \<and>
         (platform_kind (sys_platform w) = Linux \<longrightarrow>
            files w2 etc_environment =
              Some (content w etc_environment @
                    concat (map (\<lambda>(k, v). env_file_line k v) env_vars) @
                    concat (map (\<lambda>(k, v). env_file_line k v) env_vars)) \<and>
            written etc_environment (effects w w2) =
              map (\<lambda>(k, v). env_file_line k v) env_vars @
              map (\<lambda>(k, v). env_file_line k v) env_vars \<and>
            list_all (\<lambda>(k, v).
                count_list (written etc_environment (effects w w2)) (env_file_line k v) = 2)
              env_vars)"
proof -
  have e1: "environ w1 = environ w ++ map_of (rev env_vars)"
    using assms(1) by (simp add: set_env_vars_ok_environ for_current_process_environ)
  have e2: "environ w2 = environ w1 ++ map_of (rev env_vars)"
    using assms(2) by (simp add: set_env_vars_ok_environ for_current_process_environ)
  have env: "environ w2 = environ w1"
    unfolding e2 e1 by (rule map_add_twice)
  have same: "sys_platform w1 = sys_platform w"
    using set_env_vars_ok_frame [OF assms(1)] by simp
  have tr: "trace w2 =
      trace w @
      (process_phase env_vars @ persistence_phase (platform_kind (sys_platform w))) @
      (process_phase env_vars @ persistence_phase (platform_kind (sys_platform w)))"
    using set_env_vars_ok_trace [OF assms(1)] set_env_vars_ok_trace [OF assms(2)] same
    by simp
  {
    assume linux: "platform_kind (sys_platform w) = Linux"
    then have linux1: "platform_kind (sys_platform w1) = Linux"
      using same by simp
    have c1: "content w1 etc_environment =
        content w etc_environment @ concat (map (\<lambda>(k, v). env_file_line k v) env_vars)"
      by (simp add: set_env_vars_Linux_files [OF linux assms(1)] content_def)
    have fl: "files w2 etc_environment =
        Some (content w etc_environment @
              concat (map (\<lambda>(k, v). env_file_line k v) env_vars) @
              concat (map (\<lambda>(k, v). env_file_line k v) env_vars))"
      by (simp add: set_env_vars_Linux_files [OF linux1 assms(2)] c1)
    have wr: "written etc_environment (effects w w2) =
        map (\<lambda>(k, v). env_file_line k v) env_vars @
        map (\<lambda>(k, v). env_file_line k v) env_vars"
      using effects_append [OF tr] linux
      by (simp add: persistence_phase_def written_append written_process_phase
          written_linux_phase)
    have "count_list (written etc_environment (effects w w2)) (env_file_line k v) = 2"
      if "(k, v) \<in> set env_vars" for k v
    proof -
      have "env_file_line k v \<in> set (map (\<lambda>(k, v). env_file_line k v) env_vars)"
        using that by force
      with env_file_lines_distinct show ?thesis
        unfolding wr by (rule count_list_twice)
    qed
    then have "list_all (\<lambda>(k, v).
        count_list (written etc_environment (effects w w2)) (env_file_line k v) = 2) env_vars"
      by (auto simp: list_all_iff)
    note fl wr this
  }
  with env show ?thesis
    by blast
qed

theorem second_run_repeats_lines_only_witness:
  "platform_kind (sys_platform linux_host) = Linux \<and>
   (\<exists>w1 w2. set_env_vars linux_host = Inr w1 \<and> set_env_vars w1 = Inr w2 \<and>
      environ w2 = environ w1 \<and>
      files w2 etc_environment =
        Some (''LANG=C'' @ [CHR 0x0A] @
              concat (map (\<lambda>(k, v). env_file_line k v) env_vars) @
              concat (map (\<lambda>(k, v). env_file_line k v) env_vars)) \<and>
      length (written etc_environment (effects linux_host w2)) = 16)"
proof -
  obtain w1 where run1: "set_env_vars linux_host = Inr w1"
    using linux_host_run by blast
  have "platform_kind (sys_platform w1) = Linux" and "may_open w1 etc_environment"
    using set_env_vars_ok_frame [OF run1] linux_host_kind
    by (simp_all add: linux_host_def)
  then obtain w2 where run2: "set_env_vars w1 = Inr w2"
    using set_env_vars_Linux_ok by blast
  from second_run_repeats_lines_only [OF run1 run2] show ?thesis
    using linux_host_kind run1 run2
    by (auto simp: linux_host_content env_vars_length)
qed

section \<open>The phase of an effect\<close>

lemma process_scope_not_windows: "process_scope_event e \<Longrightarrow> \<not> windows_event e"
proof (cases e)
  case (Printed line)
  assume "process_scope_event e"
  then have a: "suffix '' for current process.'' line" using Printed by simp
  show ?thesis
  proof
    assume "windows_event e"
    then have "suffix '' system-wide (Windows).'' line" using Printed by simp
    from suffix_same_cases [OF a this] show False by (simp add: suffix_to_prefix)
  qed
qed simp_all

lemma process_scope_not_linux: "process_scope_event e \<Longrightarrow> \<not> linux_event e"
proof (cases e)
  case (Printed line)
  assume "process_scope_event e"
  then have a: "suffix '' for current process.'' line" using Printed by simp
  show ?thesis
  proof
    assume "linux_event e"
    then have "suffix '' to /etc/environment (Linux).'' line" using Printed by simp
    from suffix_same_cases [OF a this] show False by (simp add: suffix_to_prefix)
  qed
qed simp_all

lemma windows_not_linux: "windows_event e \<Longrightarrow> \<not> linux_event e"
proof (cases e)
  case (Printed line)
  assume "windows_event e"
  then have a: "suffix '' system-wide (Windows).'' line" using Printed by simp
  show ?thesis
  proof
    assume "linux_event e"
    then have "suffix '' to /etc/environment (Linux).'' line" using Printed by simp
    from suffix_same_cases [OF a this] show False by (simp add: suffix_to_prefix)
  qed
qed simp_all

lemma process_phase_events: "list_all process_scope_event (process_phase items)"
  by (induction items) (auto simp: process_phase_Nil process_phase_Cons suffix_def)

lemma windows_phase_events: "list_all windows_event (windows_phase items)"
  by (induction items) (auto simp: windows_phase_Nil windows_phase_Cons suffix_def)

lemma linux_loop_events: "list_all linux_event (linux_loop p items)"
  by (induction items) (auto simp: linux_loop_Nil linux_loop_Cons suffix_def)

lemma linux_phase_events: "list_all linux_event (linux_phase p items)"
  by (simp add: linux_phase_def linux_loop_events)


section \<open>Runs without a persistence phase\<close>

lemma list_ex_none: "list_all P xs \<Longrightarrow> (\<And>x. P x \<Longrightarrow> \<not> Q x) \<Longrightarrow> \<not> list_ex Q xs"
  by (auto simp: list_all_iff list_ex_iff)

lemma for_current_process_sets_entry:
  assumes "(name, val) \<in> set env_vars"
  shows "environ (for_current_process env_vars w) name = Some val"
  using map_of_rev_env_vars [OF assms]
  by (simp add: for_current_process_environ map_add_Some_iff)

lemma locked_linux_host_kind: "platform_kind (sys_platform locked_linux_host) = Linux"
  by (simp add: locked_linux_host_def linux_host_def platform_kind_def)

text \<open>
  Claim C6: on a run classified as Linux where opening \<open>/etc/environment\<close> fails, the
  run is ended by that failure; nothing has been written, every file is as it was
  before the run, the only effects are those of the process-scope phase, and the
  process environment holds the value of every entry of the table.
\<close>

theorem linux_open_failure_keeps_process_scope:
  assumes "platform_kind (sys_platform w) = Linux"
    and "\<not> may_open w etc_environment"
    and "(name, val) \<in> set env_vars"
  shows "\<exists>w'. set_env_vars w = Inl (OpenError etc_environment, w') \<and>
           files w' = files w \<and>
           written etc_environment (effects w w') = [] \<and>
           \<not> list_ex linux_event (effects w w') \<and>
           env_sets (effects w w') = env_vars \<and>
           environ w' name = Some val"
proof -
  let ?w' = "for_current_process env_vars w"
  have run: "set_env_vars w = Inl (OpenError etc_environment, ?w')"
    using assms(1,2) by (rule set_env_vars_Linux_fault)
  have eff: "effects w ?w' = process_phase env_vars"
    by (simp add: effects_append for_current_process_trace)
  have "\<not> list_ex linux_event (effects w ?w')"
    unfolding eff using process_phase_events process_scope_not_linux by (rule list_ex_none)
  moreover have "environ ?w' name = Some val"
    using assms(3) by (rule for_current_process_sets_entry)
  ultimately show ?thesis
    using run eff
    by (simp add: for_current_process_frame written_process_phase env_sets_process_phase)
qed

theorem linux_open_failure_keeps_process_scope_witness:
  "platform_kind (sys_platform locked_linux_host) = Linux \<and>
   \<not> may_open locked_linux_host etc_environment \<and>
   (''ASPNETCORE_ENVIRONMENT'', ''Production'') \<in> set env_vars \<and>
   environ locked_linux_host ''ASPNETCORE_ENVIRONMENT'' = Some ''Development'' \<and>
   (\<exists>w'. set_env_vars locked_linux_host = Inl (OpenError etc_environment, w') \<and>
      files w' etc_environment = Some (''LANG=C'' @ [CHR 0x0A]) \<and>
      environ w' ''ASPNETCORE_ENVIRONMENT'' = Some ''Production'')"
proof -
  have locked: "\<not> may_open locked_linux_host etc_environment"
    by (simp add: locked_linux_host_def)
  have entry: "(''ASPNETCORE_ENVIRONMENT'', ''Production'') \<in> set env_vars"
    by (simp add: env_vars_def)
  have before: "environ locked_linux_host ''ASPNETCORE_ENVIRONMENT'' = Some ''Development''"
    "files locked_linux_host etc_environment = Some (''LANG=C'' @ [CHR 0x0A])"
    by (simp_all add: locked_linux_host_def linux_host_def etc_environment_def)
  from linux_open_failure_keeps_process_scope [OF locked_linux_host_kind locked entry]
  show ?thesis
    using locked_linux_host_kind locked entry before by auto
qed

text \<open>
  Claim C7: on a run classified as Other the run ends normally; its effects are exactly
  those of the process-scope phase, so nothing is written to a file, no file is opened
  and no command is run; every file is as it was; and the process environment holds the
  value of every entry of the table.
\<close>

theorem other_platform_process_scope_only:
  assumes "platform_kind (sys_platform w) = Other" and "(name, val) \<in> set env_vars"
  shows "\<exists>w'. set_env_vars w = Inr w' \<and>
           effects w w' = process_phase env_vars \<and>
           spawned (effects w w') = [] \<and>
           \<not> list_ex windows_event (effects w w') \<and>
           \<not> list_ex linux_event (effects w w') \<and>
           files w' = files w \<and>
           env_sets (effects w w') = env_vars \<and>
           environ w' name = Some val"
proof -
  let ?w' = "for_current_process env_vars w"
  have run: "set_env_vars w = Inr ?w'"
    using assms(1) by (rule set_env_vars_Other)
  have eff: "effects w ?w' = process_phase env_vars"
    by (simp add: effects_append for_current_process_trace)
  have "\<not> list_ex windows_event (effects w ?w')"
    unfolding eff using process_phase_events process_scope_not_windows by (rule list_ex_none)
  moreover have "\<not> list_ex linux_event (effects w ?w')"
    unfolding eff using process_phase_events process_scope_not_linux by (rule list_ex_none)
  moreover have "environ ?w' name = Some val"
    using assms(2) by (rule for_current_process_sets_entry)
  ultimately show ?thesis
    using run eff
    by (simp add: for_current_process_frame spawned_process_phase env_sets_process_phase)
qed

theorem other_platform_process_scope_only_witness:
  "platform_kind (sys_platform darwin_host) = Other \<and>
   (''ASPNETCORE_URLS'', ''https://+:443'') \<in> set env_vars \<and>
   (\<exists>w'. set_env_vars darwin_host = Inr w' \<and>
      spawned (effects darwin_host w') = [] \<and>
      files w' = Map.empty \<and>
      length (effects darwin_host w') = 16 \<and>
      environ w' ''ASPNETCORE_URLS'' = Some ''https://+:443'')"
proof -
  have entry: "(''ASPNETCORE_URLS'', ''https://+:443'') \<in> set env_vars"
    by (simp add: env_vars_def)
  have before: "files darwin_host = Map.empty"
    by (simp add: darwin_host_def linux_host_def)
  have "length (process_phase env_vars) = 16"
    by (simp add: env_vars_def process_phase_def)
  with other_platform_process_scope_only [OF darwin_host_kind entry] show ?thesis
    using darwin_host_kind entry before by auto
qed

section \<open>A double quote in a value\<close>

lemma name_value_line_quoted:
  assumes "CHR 0x22 \<in> set val"
  shows "\<not> name_value_line (env_file_line key val)"
proof (cases "CHR ''='' \<in> set key")
  case False
  have line: "env_file_line key val = key @ CHR ''='' # CHR 0x22 # val @ [CHR 0x22, CHR 0x0A]"
    by (simp add: env_file_line_def)
  have dw: "dropWhile (\<lambda>c. c \<noteq> CHR ''='') (env_file_line key val) =
              CHR ''='' # CHR 0x22 # val @ [CHR 0x22, CHR 0x0A]"
    unfolding line using False by (subst dropWhile_append2) auto
  show ?thesis
    unfolding name_value_line_def dw using assms by simp
next
  case True
  then obtain k1 k2 where key: "key = k1 @ CHR ''='' # k2" and k1: "CHR ''='' \<notin> set k1"
    by (auto dest: split_list_first)
  have line: "env_file_line key val =
      k1 @ CHR ''='' # k2 @ CHR ''='' # CHR 0x22 # val @ [CHR 0x22, CHR 0x0A]"
    by (simp add: env_file_line_def key)
  have dw: "dropWhile (\<lambda>c. c \<noteq> CHR ''='') (env_file_line key val) =
              CHR ''='' # k2 @ CHR ''='' # CHR 0x22 # val @ [CHR 0x22, CHR 0x0A]"
    unfolding line using k1 by (subst dropWhile_append2) auto
  show ?thesis
  proof (cases k2)
    case Nil
    then show ?thesis
      unfolding name_value_line_def dw by simp
  next
    case (Cons c k3)
    then show ?thesis
      unfolding name_value_line_def dw using assms by simp
  qed
qed

lemma for_linux_written:
  "written p (effects w (for_linux p items w)) = map (\<lambda>(k, v). env_file_line k v) items"
  by (simp add: effects_append for_linux_trace written_linux_loop)

text \<open>
  Claim C8: for any table of entries, the loop of the Linux branch writes for each entry
  the name, then \<open>="\<close>, then the value as it is, then \<open>"\<close> and a line break, and the
  file grows by exactly these lines: no character of a value is escaped. Hence the line
  of every entry whose value holds a double quote fails the pattern \<open>NAME="VALUE"\<close>.
\<close>

theorem env_file_line_is_not_escaped:
  "written p (effects w (for_linux p items w)) =
     map (\<lambda>(k, v). k @ ''=\"'' @ v @ ''\"'' @ [CHR 0x0A]) items \<and>
   content (for_linux p items w) p =
     content w p @ concat (map (\<lambda>(k, v). k @ ''=\"'' @ v @ ''\"'' @ [CHR 0x0A]) items) \<and>
   list_all (\<lambda>(k, v). CHR 0x22 \<in> set v \<longrightarrow>
       \<not> name_value_line (k @ ''=\"'' @ v @ ''\"'' @ [CHR 0x0A])) items"
proof -
  have line: "(\<lambda>(k, v). k @ ''=\"'' @ v @ ''\"'' @ [CHR 0x0A]) = (\<lambda>(k, v). env_file_line k v)"
    by (simp add: env_file_line_def fun_eq_iff)
  have "list_all (\<lambda>(k, v). CHR 0x22 \<in> set v \<longrightarrow> \<not> name_value_line (env_file_line k v)) items"
    using name_value_line_quoted by (auto simp: list_all_iff)
  then have "list_all (\<lambda>(k, v). CHR 0x22 \<in> set v \<longrightarrow>
       \<not> name_value_line (k @ ''=\"'' @ v @ ''\"'' @ [CHR 0x0A])) items"
    by (simp add: env_file_line_def)
  then show ?thesis
    unfolding line by (simp add: for_linux_written for_linux_content)
qed

theorem env_file_line_is_not_escaped_witness:
  "CHR 0x22 \<in> set ''pass\"word'' \<and>
   written etc_environment
     (effects linux_host (for_linux etc_environment [(''DB_PASSWORD'', ''pass\"word'')] linux_host)) =
     [''DB_PASSWORD=\"pass\"word\"'' @ [CHR 0x0A]] \<and>
   content (for_linux etc_environment [(''DB_PASSWORD'', ''pass\"word'')] linux_host)
       etc_environment =
     ''LANG=C'' @ [CHR 0x0A] @ ''DB_PASSWORD=\"pass\"word\"'' @ [CHR 0x0A] \<and>
   \<not> name_value_line (''DB_PASSWORD=\"pass\"word\"'' @ [CHR 0x0A])"
  using env_file_line_is_not_escaped
    [of etc_environment linux_host "[(''DB_PASSWORD'', ''pass\"word'')]"]
  by (simp add: linux_host_content)

section \<open>The order of the phases\<close>

lemma persistence_phase_events:
  "case kind of
     Windows \<Rightarrow> list_all windows_event (persistence_phase kind)
   | Linux \<Rightarrow> list_all linux_event (persistence_phase kind)
   | Other \<Rightarrow> persistence_phase kind = []"
  by (cases kind)
     (simp_all add: persistence_phase_def windows_phase_events linux_phase_events)

lemma linux_not_windows: "linux_event e \<Longrightarrow> \<not> windows_event e"
  using windows_not_linux by blast

lemma windows_not_process_scope: "windows_event e \<Longrightarrow> \<not> process_scope_event e"
  using process_scope_not_windows by blast

lemma linux_not_process_scope: "linux_event e \<Longrightarrow> \<not> process_scope_event e"
  using process_scope_not_linux by blast

lemma windows_host_effects:
  "effects windows_host (world_of (set_env_vars windows_host)) =
     process_phase env_vars @ windows_phase env_vars"
proof -
  obtain w' where "set_env_vars windows_host = Inr w'"
    using windows_host_run by blast
  with set_env_vars_effects [of windows_host] show ?thesis
    using windows_host_kind by (simp add: persistence_phase_def)
qed

text \<open>
  Claim C9: in every run, whether it ends normally or by an exception, the effects fall
  into two parts that follow one another. The first part is the process-scope phase: it
  holds the assignment of every entry of the table and no effect of a persistence
  branch. The second part holds no effect of the process-scope phase, and only effects
  of the one branch the platform kind selects: of the Windows branch and none of the
  Linux branch, or of the Linux branch and none of the Windows branch, or nothing at all.
\<close>

theorem phases_follow_one_another:
  "\<exists>P Q. effects w (world_of (set_env_vars w)) = P @ Q \<and>
     P = process_phase env_vars \<and>
     env_sets P = env_vars \<and>
     list_all process_scope_event P \<and>
     \<not> list_ex windows_event P \<and> \<not> list_ex linux_event P \<and>
     env_sets Q = [] \<and>
     \<not> list_ex process_scope_event Q \<and>
     (case platform_kind (sys_platform w) of
        Windows \<Rightarrow> list_all windows_event Q \<and> \<not> list_ex linux_event Q
      | Linux \<Rightarrow> list_all linux_event Q \<and> \<not> list_ex windows_event Q
      | Other \<Rightarrow> Q = [])"
proof -
  let ?kind = "platform_kind (sys_platform w)"
  let ?P = "process_phase env_vars"
  let ?Q = "if isl (set_env_vars w) then [] else persistence_phase ?kind"
  have split: "effects w (world_of (set_env_vars w)) = ?P @ ?Q"
    by (rule set_env_vars_effects)
  have P: "list_all process_scope_event ?P"
    by (rule process_phase_events)
  have P_win: "\<not> list_ex windows_event ?P"
    using P process_scope_not_windows by (rule list_ex_none)
  have P_lin: "\<not> list_ex linux_event ?P"
    using P process_scope_not_linux by (rule list_ex_none)
  have Q_kind: "case ?kind of
        Windows \<Rightarrow> list_all windows_event ?Q \<and> \<not> list_ex linux_event ?Q
      | Linux \<Rightarrow> list_all linux_event ?Q \<and> \<not> list_ex windows_event ?Q
      | Other \<Rightarrow> ?Q = []"
  proof (cases ?kind)
    case Windows
    have "list_all windows_event ?Q"
      using persistence_phase_events [of ?kind] Windows by simp
    moreover from this have "\<not> list_ex linux_event ?Q"
      using windows_not_linux by (rule list_ex_none)
    ultimately show ?thesis
      using Windows by simp
  next
    case Linux
    have "list_all linux_event ?Q"
      using persistence_phase_events [of ?kind] Linux by simp
    moreover from this have "\<not> list_ex windows_event ?Q"
      using linux_not_windows by (rule list_ex_none)
    ultimately show ?thesis
      using Linux by simp
  next
    case Other
    then show ?thesis
      using persistence_phase_events [of ?kind] by simp
  qed
  have Q_env: "env_sets ?Q = []"
    by (simp add: env_sets_persistence_phase)
  have Q_proc: "\<not> list_ex process_scope_event ?Q"
  proof (cases ?kind)
    case Windows
    then have "list_all windows_event ?Q" using Q_kind by simp
    then show ?thesis
      using windows_not_process_scope by (rule list_ex_none)
  next
    case Linux
    then have "list_all linux_event ?Q" using Q_kind by simp
    then show ?thesis
      using linux_not_process_scope by (rule list_ex_none)
  next
    case Other
    then have "?Q = []" using Q_kind by simp
    then show ?thesis by simp
  qed
  from split P P_win P_lin Q_kind Q_env Q_proc show ?thesis
    using env_sets_process_phase [of env_vars] by blast
qed

theorem phases_follow_one_another_witness:
  "\<exists>Q. effects windows_host (world_of (set_env_vars windows_host)) =
          process_phase env_vars @ Q \<and>
        env_sets (process_phase env_vars) = env_vars \<and>
        Q = windows_phase env_vars \<and>
        list_all windows_event Q \<and> \<not> list_ex linux_event Q \<and>
        \<not> list_ex process_scope_event Q"
proof -
  from phases_follow_one_another [of windows_host] obtain Q where
    eff: "effects windows_host (world_of (set_env_vars windows_host)) =
            process_phase env_vars @ Q" and
    props: "env_sets (process_phase env_vars) = env_vars"
      "\<not> list_ex process_scope_event Q"
      "list_all windows_event Q \<and> \<not> list_ex linux_event Q"
    using windows_host_kind by auto
  from eff have "Q = windows_phase env_vars"
    by (simp add: windows_host_effects)
  with eff props show ?thesis
    by blast
qed

section \<open>What decides a run\<close>

lemma set_env_vars_fault:
  "map_sum fst (\<lambda>w'. ()) (set_env_vars w) =
     (case platform_kind (sys_platform w) of
        Windows \<Rightarrow>
          if shell_ok w then Inr ()
          else Inl (SpawnError
                 (setx_command ''SIMPLE_IDENTITY_SERVER_DB_PASSWORD'' ''sample@Strong23Password''))
      | Linux \<Rightarrow> if may_open w etc_environment then Inr () else Inl (OpenError etc_environment)
      | Other \<Rightarrow> Inr ())"
proof (cases "platform_kind (sys_platform w)")
  case Windows
  show ?thesis
  proof (cases "shell_ok w")
    case True
    from set_env_vars_Windows_ok [OF Windows True] show ?thesis
      using Windows True by simp
  next
    case False
    from set_env_vars_Windows_fault [OF Windows False] show ?thesis
      using Windows False by simp
  qed
next
  case Linux
  show ?thesis
  proof (cases "may_open w etc_environment")
    case True
    from set_env_vars_Linux_ok [OF Linux True] show ?thesis
      using Linux True by auto
  next
    case False
    from set_env_vars_Linux_fault [OF Linux False] show ?thesis
      using Linux False by simp
  qed
next
  case Other
  from set_env_vars_Other [OF Other] show ?thesis
    using Other by simp
qed

lemma isl_map_sum: "isl (map_sum f g x) = isl x"
  by (cases x) simp_all

text \<open>
  Claim C10: the effects of a run, and whether and how it fails, are decided by the
  platform kind and by the two conditions of the host under which a library call
  raises, and by nothing else: two hosts that agree on these three perform the same
  sequence of effects, whatever their process environments, files and earlier effects
  are, and end alike. The assignments follow the order of the table, and a run that ends
  normally performs the process-scope phase followed by the persistence phase of its
  platform kind, each in the order of the table.
\<close>

theorem effects_depend_on_platform_kind_only:
  assumes "platform_kind (sys_platform w1) = platform_kind (sys_platform w2)"
    and "shell_ok w1 = shell_ok w2"
    and "may_open w1 etc_environment = may_open w2 etc_environment"
  shows "effects w1 (world_of (set_env_vars w1)) = effects w2 (world_of (set_env_vars w2)) \<and>
         map_sum fst (\<lambda>w'. ()) (set_env_vars w1) = map_sum fst (\<lambda>w'. ()) (set_env_vars w2) \<and>
         printed (effects w1 (world_of (set_env_vars w1))) =
           printed (effects w2 (world_of (set_env_vars w2))) \<and>
         env_sets (effects w1 (world_of (set_env_vars w1))) = env_vars \<and>
         (\<forall>w1'. set_env_vars w1 = Inr w1' \<longrightarrow>
            effects w1 w1' =
              process_phase env_vars @ persistence_phase (platform_kind (sys_platform w1)))"
proof -
  have same: "map_sum fst (\<lambda>w'. ()) (set_env_vars w1) = map_sum fst (\<lambda>w'. ()) (set_env_vars w2)"
    using assms by (simp add: set_env_vars_fault)
  then have "isl (map_sum fst (\<lambda>w'. ()) (set_env_vars w1)) =
             isl (map_sum fst (\<lambda>w'. ()) (set_env_vars w2))"
    by simp
  then have "isl (set_env_vars w1) = isl (set_env_vars w2)"
    by (simp only: isl_map_sum)
  then have "effects w1 (world_of (set_env_vars w1)) = effects w2 (world_of (set_env_vars w2))"
    using assms(1) by (simp add: set_env_vars_effects)
  moreover have "\<forall>w1'. set_env_vars w1 = Inr w1' \<longrightarrow>
      effects w1 w1' =
        process_phase env_vars @ persistence_phase (platform_kind (sys_platform w1))"
    by (simp add: effects_append set_env_vars_ok_trace)
  ultimately show ?thesis
    using same by (simp add: env_sets_run)
qed

lemma linux_host_effects:
  "effects linux_host (world_of (set_env_vars linux_host)) =
     process_phase env_vars @ linux_phase etc_environment env_vars"
proof -
  obtain w' where "set_env_vars linux_host = Inr w'"
    using linux_host_run by blast
  with set_env_vars_effects [of linux_host] show ?thesis
    using linux_host_kind by (simp add: persistence_phase_def)
qed

theorem effects_depend_on_platform_kind_only_witness:
  "platform_kind (sys_platform linux_host) =
     platform_kind (sys_platform
       (linux_host\<lparr>sys_platform := ''linux2'', environ := Map.empty, files := Map.empty,
          trace := []\<rparr>)) \<and>
   effects (linux_host\<lparr>sys_platform := ''linux2'', environ := Map.empty, files := Map.empty,
              trace := []\<rparr>)
     (world_of (set_env_vars
        (linux_host\<lparr>sys_platform := ''linux2'', environ := Map.empty, files := Map.empty,
           trace := []\<rparr>))) =
     process_phase env_vars @ linux_phase etc_environment env_vars"
proof -
  let ?other = "linux_host\<lparr>sys_platform := ''linux2'', environ := Map.empty,
    files := Map.empty, trace := []\<rparr>"
  have kind: "platform_kind (sys_platform linux_host) = platform_kind (sys_platform ?other)"
    by (simp add: linux_host_def platform_kind_def)
  have shell: "shell_ok linux_host = shell_ok ?other"
    by simp
  have opens: "may_open linux_host etc_environment = may_open ?other etc_environment"
    by simp
  from effects_depend_on_platform_kind_only [OF kind shell opens] show ?thesis
    using kind by (simp add: linux_host_effects)
qed

end
